theory Spec2Isabelle
  imports
    Complex_Main
    "HOL-Library.AList"
    "HOL-Library.Char_ord"
    "HOL-Library.List_Lexorder"
    "HOL-Library.Product_Lexorder"
begin

section \<open>Errors and numbers\<close>

text \<open>
  Exceptions of the source are values.  \<open>ValueError\<close> is what a field validator raises,
  \<open>ValidationError\<close> is what pydantic raises from a model constructor (it carries the
  names of the fields whose validation failed), \<open>ConfidenceScoringError\<close> is the class of
  \<^verbatim>\<open>exceptions.py\<close>, and \<open>IntegrityError\<close> is the database's answer to a violated
  constraint (it carries the constraint's name).
\<close>

datatype error =
    ValueError string
  | ValidationError "string list"
  | ConfidenceScoringError string
  | IntegrityError string

text \<open>
  A Python \<^verbatim>\<open>float\<close> is a finite number, an infinity or NaN.  Finite values are taken
  as the real numbers they denote, and a decimal literal of the source as the number it
  writes; comparisons are then the comparisons of Python, where every comparison with NaN
  is false.
\<close>

datatype pyfloat = Finite real | PosInf | NegInf | NaN

fun float_le :: "pyfloat \<Rightarrow> pyfloat \<Rightarrow> bool" where
  "float_le NaN _ = False"
| "float_le _ NaN = False"
| "float_le NegInf _ = True"
| "float_le _ PosInf = True"
| "float_le (Finite a) (Finite b) = (a \<le> b)"
| "float_le PosInf _ = False"
| "float_le _ NegInf = False"

section \<open>Confidence thresholds (config.py, ThresholdsConfig)\<close>

record ThresholdsConfig =
  auto_release_min :: pyfloat
  approval_min :: pyfloat
  escalate_max :: pyfloat
  hold_extension_default :: int
  hold_extension_high_risk :: int

text \<open>
  What the environment supplies, once parsed: a field that is not set takes the default
  of its \<^verbatim>\<open>Field(...)\<close>, and pydantic does not run a field validator on a default.
\<close>

record thresholds_env =
  CONFIDENCE_AUTO_RELEASE_MIN :: "pyfloat option"
  CONFIDENCE_APPROVAL_MIN :: "pyfloat option"
  CONFIDENCE_ESCALATE_MAX :: "pyfloat option"
  HOLD_EXTENSION_DEFAULT :: "int option"
  HOLD_EXTENSION_HIGH_RISK :: "int option"

definition validate_confidence_range :: "pyfloat \<Rightarrow> error + pyfloat" where
  "validate_confidence_range v =
     (if \<not> (float_le (Finite 0) v \<and> float_le v (Finite 1))
      then Inl (ValueError ''Confidence threshold must be between 0 and 1'')
      else Inr v)"

text \<open>
  One validated field: the value to store, or, when its validator raised, the alias
  under which pydantic reports the field.
\<close>

definition confidence_field :: "string \<Rightarrow> pyfloat \<Rightarrow> pyfloat option \<Rightarrow> string + pyfloat" where
  "confidence_field name dflt given =
     (case given of
        None \<Rightarrow> Inr dflt
      | Some v \<Rightarrow> (case validate_confidence_range v of Inl _ \<Rightarrow> Inl name | Inr w \<Rightarrow> Inr w))"

definition field_errors :: "(string + pyfloat) list \<Rightarrow> string list" where
  "field_errors rs = concat (map (\<lambda>r. case r of Inl n \<Rightarrow> [n] | Inr _ \<Rightarrow> []) rs)"

definition load_thresholds :: "thresholds_env \<Rightarrow> error + ThresholdsConfig" where
  "load_thresholds env =
     (let a = confidence_field ''CONFIDENCE_AUTO_RELEASE_MIN'' (Finite 0.85) (CONFIDENCE_AUTO_RELEASE_MIN env);
          b = confidence_field ''CONFIDENCE_APPROVAL_MIN'' (Finite 0.60) (CONFIDENCE_APPROVAL_MIN env);
          c = confidence_field ''CONFIDENCE_ESCALATE_MAX'' (Finite 0.60) (CONFIDENCE_ESCALATE_MAX env)
      in case (a, b, c) of
           (Inr x, Inr y, Inr z) \<Rightarrow>
             Inr \<lparr> auto_release_min = x, approval_min = y, escalate_max = z,
                   hold_extension_default = (case HOLD_EXTENSION_DEFAULT env of None \<Rightarrow> 7 | Some n \<Rightarrow> n),
                   hold_extension_high_risk = (case HOLD_EXTENSION_HIGH_RISK env of None \<Rightarrow> 30 | Some n \<Rightarrow> n) \<rparr>
         | _ \<Rightarrow> Inl (ValidationError (field_errors [a, b, c])))"

definition empty_env :: thresholds_env where
  "empty_env = \<lparr> CONFIDENCE_AUTO_RELEASE_MIN = None, CONFIDENCE_APPROVAL_MIN = None,
                 CONFIDENCE_ESCALATE_MAX = None, HOLD_EXTENSION_DEFAULT = None,
                 HOLD_EXTENSION_HIGH_RISK = None \<rparr>"

text \<open>The closed interval from 0 to 1, as a property of the configured value.\<close>

definition in_unit :: "pyfloat \<Rightarrow> bool" where
  "in_unit v = (case v of Finite r \<Rightarrow> 0 \<le> r \<and> r \<le> 1 | _ \<Rightarrow> False)"

definition given_ok :: "pyfloat option \<Rightarrow> bool" where
  "given_ok g = (case g of None \<Rightarrow> True | Some v \<Rightarrow> in_unit v)"

subsection \<open>From the text of the environment\<close>

text \<open>
  The environment gives the text of a variable.  pydantic parses the text of a float
  field and of an int field before it runs a validator; the two parsers are pydantic's
  and are parameters here, \<open>None\<close> standing for a text that does not parse.  A field
  whose text does not parse is an error of the model like a field whose validator
  raises, and all of them are reported in one \<open>ValidationError\<close>, in the order of the
  fields.
\<close>

type_synonym environ = "string \<Rightarrow> string option"

definition float_field ::
  "(string \<Rightarrow> pyfloat option) \<Rightarrow> environ \<Rightarrow> string \<Rightarrow> pyfloat \<Rightarrow> string + pyfloat" where
  "float_field parse_float env alias dflt =
     (case env alias of
        None \<Rightarrow> Inr dflt
      | Some text \<Rightarrow>
          (case parse_float text of
             None \<Rightarrow> Inl alias
           | Some v \<Rightarrow> (case validate_confidence_range v of Inl _ \<Rightarrow> Inl alias | Inr w \<Rightarrow> Inr w)))"

definition int_field ::
  "(string \<Rightarrow> int option) \<Rightarrow> environ \<Rightarrow> string \<Rightarrow> int \<Rightarrow> string + int" where
  "int_field parse_int env alias dflt =
     (case env alias of
        None \<Rightarrow> Inr dflt
      | Some text \<Rightarrow> (case parse_int text of None \<Rightarrow> Inl alias | Some n \<Rightarrow> Inr n))"

definition error_of :: "string + 'a \<Rightarrow> string list" where
  "error_of r = (case r of Inl n \<Rightarrow> [n] | Inr _ \<Rightarrow> [])"

definition ThresholdsConfig_init ::
  "(string \<Rightarrow> pyfloat option) \<Rightarrow> (string \<Rightarrow> int option) \<Rightarrow> environ \<Rightarrow> error + ThresholdsConfig" where
  "ThresholdsConfig_init parse_float parse_int env =
     (let a = float_field parse_float env ''CONFIDENCE_AUTO_RELEASE_MIN'' (Finite 0.85);
          b = float_field parse_float env ''CONFIDENCE_APPROVAL_MIN'' (Finite 0.60);
          c = float_field parse_float env ''CONFIDENCE_ESCALATE_MAX'' (Finite 0.60);
          d = int_field parse_int env ''HOLD_EXTENSION_DEFAULT'' 7;
          e = int_field parse_int env ''HOLD_EXTENSION_HIGH_RISK'' 30
      in case (a, b, c, d, e) of
           (Inr x, Inr y, Inr z, Inr m, Inr n) \<Rightarrow>
             Inr \<lparr> auto_release_min = x, approval_min = y, escalate_max = z,
                   hold_extension_default = m, hold_extension_high_risk = n \<rparr>
         | _ \<Rightarrow> Inl (ValidationError (error_of a @ error_of b @ error_of c @ error_of d @ error_of e)))"

text \<open>
  The parsed environment of \<open>load_thresholds\<close> that a text environment gives when
  every text in it parses.
\<close>

definition parsed_env ::
  "(string \<Rightarrow> pyfloat option) \<Rightarrow> (string \<Rightarrow> int option) \<Rightarrow> environ \<Rightarrow> thresholds_env" where
  "parsed_env parse_float parse_int env =
     \<lparr> CONFIDENCE_AUTO_RELEASE_MIN = Option.bind (env ''CONFIDENCE_AUTO_RELEASE_MIN'') parse_float,
       CONFIDENCE_APPROVAL_MIN = Option.bind (env ''CONFIDENCE_APPROVAL_MIN'') parse_float,
       CONFIDENCE_ESCALATE_MAX = Option.bind (env ''CONFIDENCE_ESCALATE_MAX'') parse_float,
       HOLD_EXTENSION_DEFAULT = Option.bind (env ''HOLD_EXTENSION_DEFAULT'') parse_int,
       HOLD_EXTENSION_HIGH_RISK = Option.bind (env ''HOLD_EXTENSION_HIGH_RISK'') parse_int \<rparr>"

text \<open>
  A threshold variable is fine when it is unset or its text parses to a value in
  [0,1]; a hold-extension variable is fine when it is unset or its text parses.
\<close>

definition threshold_ok :: "(string \<Rightarrow> pyfloat option) \<Rightarrow> environ \<Rightarrow> string \<Rightarrow> bool" where
  "threshold_ok parse_float env alias =
     (case env alias of
        None \<Rightarrow> True
      | Some text \<Rightarrow> (case parse_float text of None \<Rightarrow> False | Some v \<Rightarrow> in_unit v))"

definition int_ok :: "(string \<Rightarrow> int option) \<Rightarrow> environ \<Rightarrow> string \<Rightarrow> bool" where
  "int_ok parse_int env alias =
     (case env alias of None \<Rightarrow> True | Some text \<Rightarrow> parse_int text \<noteq> None)"

section \<open>Enumerations and default weights (constants.py)\<close>

datatype DecisionType = AUTO_RELEASE | APPROVAL_REQUIRED | ESCALATE

datatype RiskLevel = LOW | MEDIUM | HIGH

datatype ValidationComponent = DOMAIN | CONTENT | SENDER | RULES

text \<open>The members of \<open>ValidationComponent\<close> are strings; this is the value of each.\<close>

fun component_value :: "ValidationComponent \<Rightarrow> string" where
  "component_value DOMAIN = ''domain_validation''"
| "component_value CONTENT = ''content_analysis''"
| "component_value SENDER = ''sender_check''"
| "component_value RULES = ''rules_evaluation''"

definition components :: "ValidationComponent list" where
  "components = [DOMAIN, CONTENT, SENDER, RULES]"

datatype WhitelistType = ENTRY_DOMAIN | ENTRY_EMAIL | ENTRY_IP

text \<open>The dict literal \<^verbatim>\<open>DEFAULT_SCORING_WEIGHTS\<close>, in the order it is written.\<close>

definition DEFAULT_SCORING_WEIGHTS :: "(string \<times> real) list" where
  "DEFAULT_SCORING_WEIGHTS =
     [(''domain_validation'', 0.30),
      (''content_analysis'', 0.35),
      (''sender_check'', 0.25),
      (''rules_evaluation'', 0.10)]"

section \<open>Allowed IP ranges (config.py, SecurityConfig)\<close>

text \<open>
  A Python \<^verbatim>\<open>str\<close> is a sequence of code points.  A \<open>char\<close> stands for the code
  point of its number, so the strings of the model are those of code points below 256.
  \<open>isspace\<close> is the test \<^verbatim>\<open>str.strip()\<close> applies: on this range the white space
  characters are U+0009 to U+000D, U+001C to U+0020, U+0085 and U+00A0.
\<close>

definition isspace :: "char \<Rightarrow> bool" where
  "isspace c = (let n = (of_char c :: nat)
                in (9 \<le> n \<and> n \<le> 13) \<or> (28 \<le> n \<and> n \<le> 32) \<or> n = 133 \<or> n = 160)"

definition strip :: "string \<Rightarrow> string" where
  "strip s = rev (dropWhile isspace (rev (dropWhile isspace s)))"

text \<open>
  \<^verbatim>\<open>s.split(sep)\<close> with a separator of one character: every occurrence of the
  separator ends a field, empty fields are kept, and the empty string gives one empty
  field.
\<close>

fun split :: "char \<Rightarrow> string \<Rightarrow> string list" where
  "split sep [] = [ [] ]"
| "split sep (c # cs) =
     (if c = sep then [] # split sep cs
      else (case split sep cs of
              w # ws \<Rightarrow> (c # w) # ws
            | [] \<Rightarrow> [ [c] ]))"

record SecurityConfig =
  api_key :: string
  rate_limit_per_minute :: int
  allowed_ip_ranges :: string

definition allowed_ip_list :: "SecurityConfig \<Rightarrow> string list" where
  "allowed_ip_list self =
     (if allowed_ip_ranges self = [] then []
      else map strip (split (CHR '','') (allowed_ip_ranges self)))"

text \<open>\<^verbatim>\<open>sep.join(fields)\<close>, against which the result of \<open>split\<close> is stated.\<close>

fun join :: "char \<Rightarrow> string list \<Rightarrow> string" where
  "join sep [] = []"
| "join sep [x] = x"
| "join sep (x # y # ys) = x @ sep # join sep (y # ys)"

text \<open>
  \<open>stripped e x\<close>: \<open>x\<close> is \<open>e\<close> without the white space around it, that is, \<open>e\<close> is
  \<open>x\<close> between two runs of white space and \<open>x\<close> neither starts nor ends with white space.
\<close>

definition stripped :: "string \<Rightarrow> string \<Rightarrow> bool" where
  "stripped e x \<longleftrightarrow>
     (\<exists>l r. e = l @ x @ r \<and> list_all isspace l \<and> list_all isspace r) \<and>
     (x = [] \<or> (\<not> isspace (hd x) \<and> \<not> isspace (last x)))"

section \<open>Censoring of log events (logging.py)\<close>

text \<open>
  \<^verbatim>\<open>str.lower()\<close> on code points below 256: the capital letters A to Z and U+00C0 to
  U+00DE (the multiplication sign U+00D7 apart) move up by 32, every other code point
  stays.
\<close>

definition lower_char :: "char \<Rightarrow> char" where
  "lower_char c = (let n = (of_char c :: nat)
                   in if (65 \<le> n \<and> n \<le> 90) \<or> (192 \<le> n \<and> n \<le> 222 \<and> n \<noteq> 215)
                      then char_of (n + 32) else c)"

definition lower :: "string \<Rightarrow> string" where
  "lower s = map lower_char s"

text \<open>\<open>contains h n\<close> is Python's \<^verbatim>\<open>n in h\<close> on strings: \<open>n\<close> occurs in \<open>h\<close>.\<close>

fun starts_with :: "string \<Rightarrow> string \<Rightarrow> bool" where
  "starts_with _ [] = True"
| "starts_with [] (y # ys) = False"
| "starts_with (x # xs) (y # ys) = (x = y \<and> starts_with xs ys)"

fun contains :: "string \<Rightarrow> string \<Rightarrow> bool" where
  "contains [] n = (n = [])"
| "contains (c # cs) n = (starts_with (c # cs) n \<or> contains cs n)"

text \<open>A value of an event: a string, or anything else.\<close>

datatype 'a pyvalue = Str string | Other 'a

type_synonym 'a EventDict = "(string \<times> 'a pyvalue) list"

definition sensitive_keys :: "string list" where
  "sensitive_keys = [''password'', ''api_key'', ''token'', ''secret'', ''auth'']"

text \<open>
  The event is a dict: an association list in insertion order.  The loop runs over a
  copy of the keys and assigns to the keys that match; assigning to a key that is
  present keeps its place.
\<close>

definition censor_step :: "string \<Rightarrow> 'a EventDict \<Rightarrow> 'a EventDict" where
  "censor_step key event_dict =
     (if list_ex (\<lambda>sensitive. contains (lower key) sensitive) sensitive_keys
      then AList.update key (Str ''***REDACTED***'') event_dict
      else event_dict)"

definition censor_sensitive_data :: "'l \<Rightarrow> string \<Rightarrow> 'a EventDict \<Rightarrow> 'a EventDict" where
  "censor_sensitive_data logger method_name event_dict =
     fold censor_step (map fst event_dict) event_dict"

section \<open>Whitelist and blacklist tables (models.py)\<close>

text \<open>
  A row of \<^verbatim>\<open>whitelists\<close> or \<^verbatim>\<open>blacklists\<close>.  The column \<^verbatim>\<open>id\<close> is \<open>row_id\<close>
  and the column \<^verbatim>\<open>value\<close> is \<open>entry_value\<close>; the nullable columns are options.
\<close>

record list_row =
  row_id :: nat
  entry_type :: string
  entry_value :: string
  added_by :: "string option"
  reason :: "string option"

record list_store =
  whitelists :: "list_row list"
  blacklists :: "list_row list"

definition type_value :: "list_row \<Rightarrow> string \<times> string" where
  "type_value r = (entry_type r, entry_value r)"

text \<open>
  The statements the database accepts on one table, under the primary key and the
  \<^verbatim>\<open>UniqueConstraint('entry_type', 'value')\<close> the table declares.  A statement that
  would break a constraint raises and changes nothing.
\<close>

definition insert_row :: "string \<Rightarrow> list_row \<Rightarrow> list_row list \<Rightarrow> error + list_row list" where
  "insert_row uq r t =
     (if row_id r \<in> set (map row_id t) then Inl (IntegrityError ''pkey'')
      else if type_value r \<in> set (map type_value t) then Inl (IntegrityError uq)
      else Inr (t @ [r]))"

definition delete_row :: "nat \<Rightarrow> list_row list \<Rightarrow> list_row list" where
  "delete_row i t = filter (\<lambda>r. row_id r \<noteq> i) t"

definition update_row :: "string \<Rightarrow> nat \<Rightarrow> string \<Rightarrow> string \<Rightarrow> list_row list \<Rightarrow> error + list_row list" where
  "update_row uq i ty v t =
     (if i \<in> set (map row_id t) \<and> (ty, v) \<in> set (map type_value (delete_row i t))
      then Inl (IntegrityError uq)
      else Inr (map (\<lambda>r. if row_id r = i then r\<lparr>entry_type := ty, entry_value := v\<rparr> else r) t))"

datatype table = Whitelist | Blacklist

datatype statement =
    Insert table list_row
  | Delete table nat
  | Update table nat string string

fun rows :: "table \<Rightarrow> list_store \<Rightarrow> list_row list" where
  "rows Whitelist s = whitelists s"
| "rows Blacklist s = blacklists s"

fun set_rows :: "table \<Rightarrow> list_row list \<Rightarrow> list_store \<Rightarrow> list_store" where
  "set_rows Whitelist t s = s\<lparr>whitelists := t\<rparr>"
| "set_rows Blacklist t s = s\<lparr>blacklists := t\<rparr>"

fun constraint_name :: "table \<Rightarrow> string" where
  "constraint_name Whitelist = ''uq_whitelist_type_value''"
| "constraint_name Blacklist = ''uq_blacklist_type_value''"

fun execute :: "list_store \<Rightarrow> statement \<Rightarrow> error + list_store" where
  "execute s (Insert tb r) =
     (case insert_row (constraint_name tb) r (rows tb s) of
        Inl e \<Rightarrow> Inl e | Inr t \<Rightarrow> Inr (set_rows tb t s))"
| "execute s (Delete tb i) = Inr (set_rows tb (delete_row i (rows tb s)) s)"
| "execute s (Update tb i ty v) =
     (case update_row (constraint_name tb) i ty v (rows tb s) of
        Inl e \<Rightarrow> Inl e | Inr t \<Rightarrow> Inr (set_rows tb t s))"

text \<open>A history of statements from a state; a statement that raises leaves the state as it was.\<close>

fun run :: "list_store \<Rightarrow> statement list \<Rightarrow> list_store" where
  "run s [] = s"
| "run s (st # sts) = (case execute s st of Inl _ \<Rightarrow> run s sts | Inr s' \<Rightarrow> run s' sts)"

definition empty_store :: list_store where
  "empty_store = \<lparr> whitelists = [], blacklists = [] \<rparr>"

section \<open>Policies (models.py, Policy)\<close>

text \<open>
  A row of \<^verbatim>\<open>policies\<close>.  The JSON columns \<^verbatim>\<open>condition\<close> and \<^verbatim>\<open>action\<close> are
  of any type; the column \<^verbatim>\<open>id\<close> is \<open>policy_id\<close>.  \<^verbatim>\<open>enabled\<close> is a nullable
  Boolean, and a policy is enabled when the column is true.
\<close>

record ('c, 'a) Policy =
  policy_id :: nat
  rule_id :: string
  name :: string
  description :: "string option"
  priority :: int
  rule_type :: string
  condition :: 'c
  action :: 'a
  enabled :: "bool option"


section \<open>The decision and scoring engine\<close>

text \<open>
  The engine itself (list resolver, policy evaluator, score aggregator, decision router)
  is not among the source files; its functions follow the specification's sections 3,
  4 and 8.  Scores and weights are real numbers.
\<close>

subsection \<open>List resolver\<close>

datatype ListVerdict = Allow | Deny | NoVerdict

type_synonym list_index = "(WhitelistType \<times> string) set"

text \<open>
  Modelled from the spec: the list resolver \<open>resolve\<close> is missing from the sources.
  Section 4.1: the contract is \<open>resolve(sender_email, sender_domain, sender_ip)\<close> with a
  verdict allow, deny or none; the lookup order is blacklist by email, by domain, by
  IP, then whitelist by email, by domain, by IP, then none; the blacklist is checked
  first and short-circuits.  The two lists are indexed by (type, value).
\<close>

definition resolve :: "list_index \<Rightarrow> list_index \<Rightarrow> string \<Rightarrow> string \<Rightarrow> string \<Rightarrow> ListVerdict" where
  "resolve whitelist blacklist sender_email sender_domain sender_ip =
     (if (ENTRY_EMAIL, sender_email) \<in> blacklist then Deny
      else if (ENTRY_DOMAIN, sender_domain) \<in> blacklist then Deny
      else if (ENTRY_IP, sender_ip) \<in> blacklist then Deny
      else if (ENTRY_EMAIL, sender_email) \<in> whitelist then Allow
      else if (ENTRY_DOMAIN, sender_domain) \<in> whitelist then Allow
      else if (ENTRY_IP, sender_ip) \<in> whitelist then Allow
      else NoVerdict)"

subsection \<open>Policy evaluator\<close>

record 'a PolicyOutcome =
  outcome_rule_id :: string
  outcome_action :: 'a






subsection \<open>Score aggregator\<close>

type_synonym 'd ValidationInput = "ValidationComponent \<Rightarrow> (real \<times> 'd) option"

type_synonym ScoringWeights = "ValidationComponent \<Rightarrow> real"

text \<open>
  Modelled from the spec: the invariant of ScoringWeights of section 3, which no source
  file checks: the weights are non-negative and sum to 1.0 within a tolerance of 1e-6.
\<close>

definition weights_valid :: "ScoringWeights \<Rightarrow> bool" where
  "weights_valid weights \<longleftrightarrow>
     list_all (\<lambda>c. 0 \<le> weights c) components \<and>
     \<bar>sum_list (map weights components) - 1\<bar> \<le> 1 / 10 ^ 6"

text \<open>
  Modelled from the spec: the score aggregator \<open>aggregate\<close> is missing from the sources.
  Section 4.3: it computes the sum of weight[c] * score[c] over the four required
  components and fails with a scoring error if a required component is absent, a score
  is outside [0,1], or the weights do not satisfy their invariant.
\<close>

fun weighted_sum ::
  "ValidationComponent list \<Rightarrow> 'd ValidationInput \<Rightarrow> ScoringWeights \<Rightarrow> error + real" where
  "weighted_sum [] input weights = Inr 0"
| "weighted_sum (c # cs) input weights =
     (case input c of
        None \<Rightarrow> Inl (ConfidenceScoringError (component_value c))
      | Some (score, details) \<Rightarrow>
          if \<not> (0 \<le> score \<and> score \<le> 1) then Inl (ConfidenceScoringError (component_value c))
          else (case weighted_sum cs input weights of
                  Inl e \<Rightarrow> Inl e
                | Inr rest \<Rightarrow> Inr (weights c * score + rest)))"

definition aggregate :: "'d ValidationInput \<Rightarrow> ScoringWeights \<Rightarrow> error + real" where
  "aggregate input weights =
     (if \<not> weights_valid weights then Inl (ConfidenceScoringError ''weights'')
      else weighted_sum components input weights)"

text \<open>An input that has the score \<open>x\<close> for the component \<open>c\<close> and is otherwise \<open>input\<close>.\<close>

definition with_score :: "'d ValidationInput \<Rightarrow> ValidationComponent \<Rightarrow> real \<Rightarrow> 'd ValidationInput" where
  "with_score input c x = (\<lambda>k. if k = c then map_option (\<lambda>(s, d). (x, d)) (input k) else input k)"

subsection \<open>Decision router\<close>

datatype PolicyAction = release | escalate | require_approval

record Decision =
  decision_type :: DecisionType
  risk_level :: RiskLevel
  overall_score :: real
  decision_reason :: string
  matched_policy :: "string option"
  list_verdict :: ListVerdict

fun decision_of_action :: "PolicyAction \<Rightarrow> DecisionType" where
  "decision_of_action release = AUTO_RELEASE"
| "decision_of_action escalate = ESCALATE"
| "decision_of_action require_approval = APPROVAL_REQUIRED"

text \<open>
  Modelled from the spec: the decision router \<open>route\<close> is missing from the sources.
  Section 4.5, precedence highest first: (1) list_verdict = deny gives escalate with the
  reason "blacklisted sender"; (2) a policy outcome gives the decision type of its
  action, with the rule_id and description as reason; (3) list_verdict = allow gives
  auto_release with the reason "whitelisted sender"; (4) else the thresholds:
  overall_score at least auto_release_min gives auto_release, at least approval_min gives
  approval_required, else escalate.  The action of an outcome is the pair of its kind
  and its description.
\<close>

definition route ::
  "real \<Rightarrow> RiskLevel \<Rightarrow> ListVerdict \<Rightarrow> (PolicyAction \<times> string) PolicyOutcome option \<Rightarrow>
   ThresholdsConfig \<Rightarrow> Decision" where
  "route score risk verdict policy_outcome thresholds =
     (let base = \<lparr> decision_type = ESCALATE, risk_level = risk, overall_score = score,
                   decision_reason = [], matched_policy = None, list_verdict = verdict \<rparr>
      in if verdict = Deny
         then base\<lparr>decision_type := ESCALATE, decision_reason := ''blacklisted sender''\<rparr>
         else (case policy_outcome of
                 Some outcome \<Rightarrow>
                   base\<lparr>decision_type := decision_of_action (fst (outcome_action outcome)),
                        decision_reason := outcome_rule_id outcome @ '' '' @ snd (outcome_action outcome),
                        matched_policy := Some (outcome_rule_id outcome)\<rparr>
               | None \<Rightarrow>
                   if verdict = Allow
                   then base\<lparr>decision_type := AUTO_RELEASE, decision_reason := ''whitelisted sender''\<rparr>
                   else if float_le (auto_release_min thresholds) (Finite score)
                   then base\<lparr>decision_type := AUTO_RELEASE, decision_reason := ''score at or above auto_release_min''\<rparr>
                   else if float_le (approval_min thresholds) (Finite score)
                   then base\<lparr>decision_type := APPROVAL_REQUIRED, decision_reason := ''score at or above approval_min''\<rparr>
                   else base\<lparr>decision_type := ESCALATE, decision_reason := ''score below approval_min''\<rparr>))"

section \<open>Auxiliary predicates\<close>

text \<open>The test of the loop of \<open>censor_sensitive_data\<close> on one key.\<close>

definition is_sensitive :: "string \<Rightarrow> bool" where
  "is_sensitive key = list_ex (\<lambda>sensitive. contains (lower key) sensitive) sensitive_keys"

text \<open>
  The constraints of one table as a property of its rows: the primary key and the
  pair (entry_type, value) are each unique.
\<close>

definition table_ok :: "list_row list \<Rightarrow> bool" where
  "table_ok t \<longleftrightarrow> distinct (map row_id t) \<and> distinct (map type_value t)"

definition store_ok :: "list_store \<Rightarrow> bool" where
  "store_ok s \<longleftrightarrow> table_ok (whitelists s) \<and> table_ok (blacklists s)"

text \<open>The weighted sum over the four components, written out.\<close>

definition weighted_total :: "ScoringWeights \<Rightarrow> (ValidationComponent \<Rightarrow> real) \<Rightarrow> real" where
  "weighted_total weights s =
     weights DOMAIN * s DOMAIN + weights CONTENT * s CONTENT +
     weights SENDER * s SENDER + weights RULES * s RULES"

section \<open>Concrete inputs\<close>

text \<open>Inputs at which the properties below are evaluated.\<close>

definition misordered_env :: thresholds_env where
  "misordered_env =
     \<lparr> CONFIDENCE_AUTO_RELEASE_MIN = Some (Finite 0.1), CONFIDENCE_APPROVAL_MIN = Some (Finite 0.5),
       CONFIDENCE_ESCALATE_MAX = Some (Finite 0.9), HOLD_EXTENSION_DEFAULT = None,
       HOLD_EXTENSION_HIGH_RISK = None \<rparr>"

definition out_of_range_env :: thresholds_env where
  "out_of_range_env =
     \<lparr> CONFIDENCE_AUTO_RELEASE_MIN = None, CONFIDENCE_APPROVAL_MIN = Some (Finite 1.5),
       CONFIDENCE_ESCALATE_MAX = None, HOLD_EXTENSION_DEFAULT = None,
       HOLD_EXTENSION_HIGH_RISK = None \<rparr>"

text \<open>Parsers that know a few texts, and environments written in them.\<close>

definition float_of_text :: "string \<Rightarrow> pyfloat option" where
  "float_of_text = map_of [(''0.1'', Finite 0.1), (''0.5'', Finite 0.5), (''0.9'', Finite 0.9),
                           (''1.5'', Finite 1.5), (''nan'', NaN)]"

definition int_of_text :: "string \<Rightarrow> int option" where
  "int_of_text = map_of [(''7'', 7), (''14'', 14), (''30'', 30)]"

definition misordered_environ :: environ where
  "misordered_environ =
     map_of [(''CONFIDENCE_AUTO_RELEASE_MIN'', ''0.1''), (''CONFIDENCE_APPROVAL_MIN'', ''0.5''),
             (''CONFIDENCE_ESCALATE_MAX'', ''0.9''), (''HOLD_EXTENSION_DEFAULT'', ''14'')]"

definition out_of_range_environ :: environ where
  "out_of_range_environ =
     map_of [(''CONFIDENCE_AUTO_RELEASE_MIN'', ''0.9''), (''CONFIDENCE_APPROVAL_MIN'', ''1.5'')]"

definition malformed_environ :: environ where
  "malformed_environ =
     map_of [(''CONFIDENCE_APPROVAL_MIN'', ''0.5''), (''HOLD_EXTENSION_DEFAULT'', ''7.5'')]"

definition sec0 :: SecurityConfig where
  "sec0 = \<lparr> api_key = ''k'', rate_limit_per_minute = 100, allowed_ip_ranges = ''10.0.0.0/8, 192.168.1.1 ,,  '' \<rparr>"

definition sec_empty :: SecurityConfig where
  "sec_empty = \<lparr> api_key = ''k'', rate_limit_per_minute = 100, allowed_ip_ranges = [] \<rparr>"

definition event0 :: "nat EventDict" where
  "event0 = [(''event'', Str ''login''), (''API_KEY'', Str ''k-123''), (''user'', Str ''bob''),
             (''Authorization'', Other 7), (''count'', Other 3)]"

definition row1 :: list_row where
  "row1 = \<lparr> row_id = 1, entry_type = ''domain'', entry_value = ''example.com'', added_by = None, reason = None \<rparr>"

definition row2 :: list_row where
  "row2 = \<lparr> row_id = 2, entry_type = ''domain'', entry_value = ''example.com'', added_by = Some ''admin'', reason = None \<rparr>"

definition row3 :: list_row where
  "row3 = \<lparr> row_id = 3, entry_type = ''email'', entry_value = ''eve@example.com'', added_by = None, reason = None \<rparr>"

definition history0 :: "statement list" where
  "history0 = [Insert Whitelist row1, Insert Whitelist row2, Insert Blacklist row1,
               Insert Whitelist row3, Update Whitelist 3 ''domain'' ''example.com'', Delete Blacklist 7]"

definition default_thresholds :: ThresholdsConfig where
  "default_thresholds =
     \<lparr> auto_release_min = Finite 0.85, approval_min = Finite 0.60, escalate_max = Finite 0.60,
       hold_extension_default = 7, hold_extension_high_risk = 30 \<rparr>"

definition release_outcome :: "(PolicyAction \<times> string) PolicyOutcome" where
  "release_outcome = \<lparr> outcome_rule_id = ''R-1'', outcome_action = (release, ''trusted partner'') \<rparr>"

definition example_weights :: ScoringWeights where
  "example_weights c = (case c of DOMAIN \<Rightarrow> 0.30 | CONTENT \<Rightarrow> 0.35 | SENDER \<Rightarrow> 0.25 | RULES \<Rightarrow> 0.10)"

definition example_scores :: "ValidationComponent \<Rightarrow> real" where
  "example_scores c = (case c of DOMAIN \<Rightarrow> 0.9 | CONTENT \<Rightarrow> 0.8 | SENDER \<Rightarrow> 0.7 | RULES \<Rightarrow> 0.6)"

definition example_input :: "unit ValidationInput" where
  "example_input c = Some (example_scores c, ())"

definition partial_input :: "unit ValidationInput" where
  "partial_input c = (if c = RULES then None else example_input c)"







section \<open>Properties of the thresholds\<close>

lemma validate_confidence_range_iff:
  "validate_confidence_range v = (if in_unit v then Inr v else Inl (ValueError ''Confidence threshold must be between 0 and 1''))"
  by (cases v) (auto simp: validate_confidence_range_def in_unit_def)

lemma confidence_field_cases:
  "confidence_field n d g =
     (case g of None \<Rightarrow> Inr d | Some v \<Rightarrow> if in_unit v then Inr v else Inl n)"
  by (simp add: confidence_field_def validate_confidence_range_iff split: option.splits)

text \<open>
  C6.  The validator of the three confidence thresholds returns a value in [0,1]
  unchanged and raises on every other value (a number outside the interval, an
  infinity, NaN).  Loading a configuration in which one of the three thresholds is
  configured outside [0,1] raises a validation error; loading one whose configured
  thresholds are all in [0,1] succeeds and stores each configured value as it is and the
  default for each one not configured.  The defaults are 0.85 for auto_release_min
  and 0.60 for approval_min and escalate_max.
\<close>

theorem thresholds_range_validated:
  assumes "in_unit v" and "\<not> in_unit u"
    and "CONFIDENCE_AUTO_RELEASE_MIN bad = Some u \<or> CONFIDENCE_APPROVAL_MIN bad = Some u \<or>
         CONFIDENCE_ESCALATE_MAX bad = Some u"
    and "given_ok (CONFIDENCE_AUTO_RELEASE_MIN env)" and "given_ok (CONFIDENCE_APPROVAL_MIN env)"
    and "given_ok (CONFIDENCE_ESCALATE_MAX env)"
  shows "validate_confidence_range v = Inr v \<and>
         validate_confidence_range u = Inl (ValueError ''Confidence threshold must be between 0 and 1'') \<and>
         (\<exists>fields. load_thresholds bad = Inl (ValidationError fields) \<and> fields \<noteq> []) \<and>
         (\<exists>cfg. load_thresholds env = Inr cfg \<and>
            auto_release_min cfg = (case CONFIDENCE_AUTO_RELEASE_MIN env of None \<Rightarrow> Finite 0.85 | Some x \<Rightarrow> x) \<and>
            approval_min cfg = (case CONFIDENCE_APPROVAL_MIN env of None \<Rightarrow> Finite 0.60 | Some x \<Rightarrow> x) \<and>
            escalate_max cfg = (case CONFIDENCE_ESCALATE_MAX env of None \<Rightarrow> Finite 0.60 | Some x \<Rightarrow> x)) \<and>
         load_thresholds empty_env =
           Inr \<lparr> auto_release_min = Finite 0.85, approval_min = Finite 0.60, escalate_max = Finite 0.60,
                 hold_extension_default = 7, hold_extension_high_risk = 30 \<rparr>"
proof -
  have a: "validate_confidence_range v = Inr v"
    using assms(1) by (simp add: validate_confidence_range_iff)
  have b: "validate_confidence_range u = Inl (ValueError ''Confidence threshold must be between 0 and 1'')"
    using assms(2) by (simp add: validate_confidence_range_iff)
  have c: "\<exists>fields. load_thresholds bad = Inl (ValidationError fields) \<and> fields \<noteq> []"
    using assms(2,3)
    by (auto simp: load_thresholds_def confidence_field_cases field_errors_def Let_def
             split: option.splits sum.splits)
  have d: "\<exists>cfg. load_thresholds env = Inr cfg \<and>
            auto_release_min cfg = (case CONFIDENCE_AUTO_RELEASE_MIN env of None \<Rightarrow> Finite 0.85 | Some x \<Rightarrow> x) \<and>
            approval_min cfg = (case CONFIDENCE_APPROVAL_MIN env of None \<Rightarrow> Finite 0.60 | Some x \<Rightarrow> x) \<and>
            escalate_max cfg = (case CONFIDENCE_ESCALATE_MAX env of None \<Rightarrow> Finite 0.60 | Some x \<Rightarrow> x)"
    using assms(4,5,6)
    by (auto simp: load_thresholds_def confidence_field_cases given_ok_def Let_def
             split: option.splits)
  have e: "load_thresholds empty_env =
           Inr \<lparr> auto_release_min = Finite 0.85, approval_min = Finite 0.60, escalate_max = Finite 0.60,
                 hold_extension_default = 7, hold_extension_high_risk = 30 \<rparr>"
    by (simp add: load_thresholds_def empty_env_def confidence_field_def)
  from a b c d e show ?thesis by blast
qed

theorem thresholds_range_validated_witness:
  "in_unit (Finite 0.5) \<and> \<not> in_unit (Finite 1.5) \<and>
   validate_confidence_range (Finite 0.5) = Inr (Finite 0.5) \<and>
   validate_confidence_range (Finite 1.5) = Inl (ValueError ''Confidence threshold must be between 0 and 1'') \<and>
   (\<exists>fields. load_thresholds out_of_range_env = Inl (ValidationError fields) \<and> fields \<noteq> []) \<and>
   (\<exists>cfg. load_thresholds misordered_env = Inr cfg \<and> auto_release_min cfg = Finite 0.1 \<and>
      approval_min cfg = Finite 0.5 \<and> escalate_max cfg = Finite 0.9)"
  using thresholds_range_validated [of "Finite 0.5" "Finite 1.5" out_of_range_env misordered_env]
  by (simp add: in_unit_def given_ok_def out_of_range_env_def misordered_env_def)

text \<open>
  C4, as the claim states it, fails: a configuration with escalate_max = 0.9,
  approval_min = 0.5 and auto_release_min = 0.1 breaks the ordering
  escalate_max \<le> approval_min \<le> auto_release_min and is loaded without an error.
\<close>

theorem thresholds_order_counterexample:
  "load_thresholds misordered_env =
     Inr \<lparr> auto_release_min = Finite 0.1, approval_min = Finite 0.5, escalate_max = Finite 0.9,
           hold_extension_default = 7, hold_extension_high_risk = 30 \<rparr> \<and>
   \<not> (float_le (Finite 0.9) (Finite 0.5) \<and> float_le (Finite 0.5) (Finite 0.1))"
  by (simp add: load_thresholds_def misordered_env_def confidence_field_def validate_confidence_range_def)

subsection \<open>Loading from the text of the environment\<close>

lemma float_field_cases:
  "float_field pfloat env alias dflt =
     (case env alias of
        None \<Rightarrow> Inr dflt
      | Some text \<Rightarrow> (case pfloat text of None \<Rightarrow> Inl alias
                      | Some v \<Rightarrow> if in_unit v then Inr v else Inl alias))"
  by (simp add: float_field_def validate_confidence_range_iff split: option.splits)

lemma float_field_ok:
  "threshold_ok pfloat env alias \<Longrightarrow> \<exists>v. float_field pfloat env alias dflt = Inr v"
  by (auto simp: float_field_cases threshold_ok_def split: option.splits)

lemma int_field_ok:
  "int_ok pint env alias \<Longrightarrow> \<exists>n. int_field pint env alias dflt = Inr n"
  by (auto simp: int_field_def int_ok_def split: option.splits)

lemma float_field_bad:
  "env alias = Some text \<Longrightarrow> pfloat text = Some u \<Longrightarrow> \<not> in_unit u \<Longrightarrow>
   float_field pfloat env alias dflt = Inl alias"
  by (simp add: float_field_cases)

lemma float_field_in_unit:
  "float_field pfloat env alias dflt = Inr v \<Longrightarrow> in_unit dflt \<Longrightarrow> in_unit v"
  by (auto simp: float_field_cases split: option.splits if_splits)

lemma init_Inr_fields:
  "ThresholdsConfig_init pfloat pint env = Inr cfg \<Longrightarrow>
     float_field pfloat env ''CONFIDENCE_AUTO_RELEASE_MIN'' (Finite 0.85) = Inr (auto_release_min cfg) \<and>
     float_field pfloat env ''CONFIDENCE_APPROVAL_MIN'' (Finite 0.60) = Inr (approval_min cfg) \<and>
     float_field pfloat env ''CONFIDENCE_ESCALATE_MAX'' (Finite 0.60) = Inr (escalate_max cfg)"
  by (auto simp: ThresholdsConfig_init_def Let_def split: sum.splits)

lemma init_Inl:
  "float_field pfloat env ''CONFIDENCE_AUTO_RELEASE_MIN'' (Finite 0.85) = Inl n \<or>
   float_field pfloat env ''CONFIDENCE_APPROVAL_MIN'' (Finite 0.60) = Inl n \<or>
   float_field pfloat env ''CONFIDENCE_ESCALATE_MAX'' (Finite 0.60) = Inl n \<Longrightarrow>
   \<exists>fields. ThresholdsConfig_init pfloat pint env = Inl (ValidationError fields) \<and> n \<in> set fields"
  by (auto simp: ThresholdsConfig_init_def Let_def error_of_def split: sum.splits)

text \<open>
  C4, amended.  Configuration loading validates the range of each confidence
  threshold, not their relative ordering.  A thresholds configuration in which a
  configured threshold is outside [0,1] is rejected at load time with a configuration
  error, which is the validation error pydantic raises when the settings are
  constructed and which names the variable; so no loaded configuration holds a
  threshold outside [0,1].  A configuration whose values parse and whose configured
  thresholds are in [0,1] is accepted whatever the ordering of the three, also when
  escalate_max \<le> approval_min \<le> auto_release_min does not hold.
\<close>

theorem thresholds_range_not_order:
  assumes "var \<in> {''CONFIDENCE_AUTO_RELEASE_MIN'', ''CONFIDENCE_APPROVAL_MIN'', ''CONFIDENCE_ESCALATE_MAX''}"
    and "bad var = Some raw" and "parse_float raw = Some u" and "\<not> in_unit u"
    and "threshold_ok parse_float good ''CONFIDENCE_AUTO_RELEASE_MIN''"
    and "threshold_ok parse_float good ''CONFIDENCE_APPROVAL_MIN''"
    and "threshold_ok parse_float good ''CONFIDENCE_ESCALATE_MAX''"
    and "int_ok parse_int good ''HOLD_EXTENSION_DEFAULT''"
    and "int_ok parse_int good ''HOLD_EXTENSION_HIGH_RISK''"
  shows "(\<exists>fields. ThresholdsConfig_init parse_float parse_int bad = Inl (ValidationError fields) \<and>
            var \<in> set fields) \<and>
         (\<exists>cfg. ThresholdsConfig_init parse_float parse_int good = Inr cfg) \<and>
         (\<forall>cfg. ThresholdsConfig_init parse_float parse_int env = Inr cfg \<longrightarrow>
            in_unit (auto_release_min cfg) \<and> in_unit (approval_min cfg) \<and> in_unit (escalate_max cfg))"
proof (intro conjI allI impI)
  have "float_field parse_float bad var dflt = Inl var" for dflt
    using assms(2,3,4) by (rule float_field_bad)
  with assms(1)
  have "float_field parse_float bad ''CONFIDENCE_AUTO_RELEASE_MIN'' (Finite 0.85) = Inl var \<or>
        float_field parse_float bad ''CONFIDENCE_APPROVAL_MIN'' (Finite 0.60) = Inl var \<or>
        float_field parse_float bad ''CONFIDENCE_ESCALATE_MAX'' (Finite 0.60) = Inl var"
    by blast
  then show "\<exists>fields. ThresholdsConfig_init parse_float parse_int bad = Inl (ValidationError fields) \<and>
            var \<in> set fields"
    by (rule init_Inl)
next
  from float_field_ok [OF assms(5)] obtain x where
    x: "float_field parse_float good ''CONFIDENCE_AUTO_RELEASE_MIN'' (Finite 0.85) = Inr x" by blast
  from float_field_ok [OF assms(6)] obtain y where
    y: "float_field parse_float good ''CONFIDENCE_APPROVAL_MIN'' (Finite 0.60) = Inr y" by blast
  from float_field_ok [OF assms(7)] obtain z where
    z: "float_field parse_float good ''CONFIDENCE_ESCALATE_MAX'' (Finite 0.60) = Inr z" by blast
  from int_field_ok [OF assms(8)] obtain m where
    m: "int_field parse_int good ''HOLD_EXTENSION_DEFAULT'' 7 = Inr m" by blast
  from int_field_ok [OF assms(9)] obtain n where
    n: "int_field parse_int good ''HOLD_EXTENSION_HIGH_RISK'' 30 = Inr n" by blast
  show "\<exists>cfg. ThresholdsConfig_init parse_float parse_int good = Inr cfg"
    unfolding ThresholdsConfig_init_def x y z m n by simp
next
  fix cfg assume "ThresholdsConfig_init parse_float parse_int env = Inr cfg"
  note f = init_Inr_fields [OF this]
  have d1: "in_unit (Finite 0.85)" and d2: "in_unit (Finite 0.60)" by (simp_all add: in_unit_def)
  from f d1 show "in_unit (auto_release_min cfg)" by (blast intro: float_field_in_unit)
  from f d2 show "in_unit (approval_min cfg)" by (blast intro: float_field_in_unit)
  from f d2 show "in_unit (escalate_max cfg)" by (blast intro: float_field_in_unit)
qed

lemma init_misordered:
  "ThresholdsConfig_init float_of_text int_of_text misordered_environ =
     Inr \<lparr> auto_release_min = Finite 0.1, approval_min = Finite 0.5, escalate_max = Finite 0.9,
           hold_extension_default = 14, hold_extension_high_risk = 30 \<rparr>"
  by (simp add: ThresholdsConfig_init_def float_field_def int_field_def validate_confidence_range_def
        float_of_text_def int_of_text_def misordered_environ_def)

lemma init_out_of_range:
  "ThresholdsConfig_init float_of_text int_of_text out_of_range_environ =
     Inl (ValidationError [''CONFIDENCE_APPROVAL_MIN''])"
  by (simp add: ThresholdsConfig_init_def float_field_def int_field_def validate_confidence_range_def
        float_of_text_def int_of_text_def out_of_range_environ_def error_of_def)

lemma init_malformed:
  "ThresholdsConfig_init float_of_text int_of_text malformed_environ =
     Inl (ValidationError [''HOLD_EXTENSION_DEFAULT''])"
  by (simp add: ThresholdsConfig_init_def float_field_def int_field_def validate_confidence_range_def
        float_of_text_def int_of_text_def malformed_environ_def error_of_def)

lemma init_parsed:
  assumes "\<forall>n \<in> {''CONFIDENCE_AUTO_RELEASE_MIN'', ''CONFIDENCE_APPROVAL_MIN'', ''CONFIDENCE_ESCALATE_MAX''}.
             \<forall>t. env n = Some t \<longrightarrow> pfloat t \<noteq> None"
    and "\<forall>n \<in> {''HOLD_EXTENSION_DEFAULT'', ''HOLD_EXTENSION_HIGH_RISK''}.
             \<forall>t. env n = Some t \<longrightarrow> pint t \<noteq> None"
  shows "ThresholdsConfig_init pfloat pint env = load_thresholds (parsed_env pfloat pint env)"
proof -
  have f: "float_field pfloat env n d = confidence_field n d (Option.bind (env n) pfloat)"
    if "\<forall>t. env n = Some t \<longrightarrow> pfloat t \<noteq> None" for n d
    using that by (auto simp: float_field_def confidence_field_def split: option.splits)
  have i: "int_field pint env n d = Inr (case Option.bind (env n) pint of None \<Rightarrow> d | Some k \<Rightarrow> k)"
    if "\<forall>t. env n = Some t \<longrightarrow> pint t \<noteq> None" for n d
    using that by (auto simp: int_field_def split: option.splits)
  have fa: "float_field pfloat env ''CONFIDENCE_AUTO_RELEASE_MIN'' d =
              confidence_field ''CONFIDENCE_AUTO_RELEASE_MIN'' d (Option.bind (env ''CONFIDENCE_AUTO_RELEASE_MIN'') pfloat)" for d
    using assms(1) by (intro f) simp
  have fb: "float_field pfloat env ''CONFIDENCE_APPROVAL_MIN'' d =
              confidence_field ''CONFIDENCE_APPROVAL_MIN'' d (Option.bind (env ''CONFIDENCE_APPROVAL_MIN'') pfloat)" for d
    using assms(1) by (intro f) simp
  have fc: "float_field pfloat env ''CONFIDENCE_ESCALATE_MAX'' d =
              confidence_field ''CONFIDENCE_ESCALATE_MAX'' d (Option.bind (env ''CONFIDENCE_ESCALATE_MAX'') pfloat)" for d
    using assms(1) by (intro f) simp
  have ia: "int_field pint env ''HOLD_EXTENSION_DEFAULT'' d =
              Inr (case Option.bind (env ''HOLD_EXTENSION_DEFAULT'') pint of None \<Rightarrow> d | Some k \<Rightarrow> k)" for d
    using assms(2) by (intro i) simp
  have ib: "int_field pint env ''HOLD_EXTENSION_HIGH_RISK'' d =
              Inr (case Option.bind (env ''HOLD_EXTENSION_HIGH_RISK'') pint of None \<Rightarrow> d | Some k \<Rightarrow> k)" for d
    using assms(2) by (intro i) simp
  show ?thesis
    unfolding ThresholdsConfig_init_def load_thresholds_def fa fb fc ia ib
    by (simp add: parsed_env_def Let_def error_of_def field_errors_def split: sum.splits)
qed

theorem thresholds_range_not_order_witness:
  "''CONFIDENCE_APPROVAL_MIN'' \<in>
     {''CONFIDENCE_AUTO_RELEASE_MIN'', ''CONFIDENCE_APPROVAL_MIN'', ''CONFIDENCE_ESCALATE_MAX''} \<and>
   out_of_range_environ ''CONFIDENCE_APPROVAL_MIN'' = Some ''1.5'' \<and>
   float_of_text ''1.5'' = Some (Finite 1.5) \<and> \<not> in_unit (Finite 1.5) \<and>
   threshold_ok float_of_text misordered_environ ''CONFIDENCE_AUTO_RELEASE_MIN'' \<and>
   threshold_ok float_of_text misordered_environ ''CONFIDENCE_APPROVAL_MIN'' \<and>
   threshold_ok float_of_text misordered_environ ''CONFIDENCE_ESCALATE_MAX'' \<and>
   int_ok int_of_text misordered_environ ''HOLD_EXTENSION_DEFAULT'' \<and>
   int_ok int_of_text misordered_environ ''HOLD_EXTENSION_HIGH_RISK'' \<and>
   (\<exists>fields. ThresholdsConfig_init float_of_text int_of_text out_of_range_environ =
               Inl (ValidationError fields) \<and> ''CONFIDENCE_APPROVAL_MIN'' \<in> set fields) \<and>
   (\<exists>cfg. ThresholdsConfig_init float_of_text int_of_text misordered_environ = Inr cfg) \<and>
   ThresholdsConfig_init float_of_text int_of_text misordered_environ =
     Inr \<lparr> auto_release_min = Finite 0.1, approval_min = Finite 0.5, escalate_max = Finite 0.9,
           hold_extension_default = 14, hold_extension_high_risk = 30 \<rparr>"
proof -
  have 1: "''CONFIDENCE_APPROVAL_MIN'' \<in>
     {''CONFIDENCE_AUTO_RELEASE_MIN'', ''CONFIDENCE_APPROVAL_MIN'', ''CONFIDENCE_ESCALATE_MAX''}"
    by simp
  have 2: "out_of_range_environ ''CONFIDENCE_APPROVAL_MIN'' = Some ''1.5''"
    by (simp add: out_of_range_environ_def)
  have 3: "float_of_text ''1.5'' = Some (Finite 1.5)"
    by (simp add: float_of_text_def)
  have 4: "\<not> in_unit (Finite 1.5)"
    by (simp add: in_unit_def)
  have 5: "threshold_ok float_of_text misordered_environ ''CONFIDENCE_AUTO_RELEASE_MIN''"
    by (simp add: threshold_ok_def misordered_environ_def float_of_text_def in_unit_def)
  have 6: "threshold_ok float_of_text misordered_environ ''CONFIDENCE_APPROVAL_MIN''"
    by (simp add: threshold_ok_def misordered_environ_def float_of_text_def in_unit_def)
  have 7: "threshold_ok float_of_text misordered_environ ''CONFIDENCE_ESCALATE_MAX''"
    by (simp add: threshold_ok_def misordered_environ_def float_of_text_def in_unit_def)
  have 8: "int_ok int_of_text misordered_environ ''HOLD_EXTENSION_DEFAULT''"
    by (simp add: int_ok_def misordered_environ_def int_of_text_def)
  have 9: "int_ok int_of_text misordered_environ ''HOLD_EXTENSION_HIGH_RISK''"
    by (simp add: int_ok_def misordered_environ_def int_of_text_def)
  note range = thresholds_range_not_order
    [where var = "''CONFIDENCE_APPROVAL_MIN''" and bad = out_of_range_environ and raw = "''1.5''"
       and parse_float = float_of_text and u = "Finite 1.5" and good = misordered_environ
       and parse_int = int_of_text and env = misordered_environ, OF 1 2 3 4 5 6 7 8 9]
  from range have 10: "\<exists>fields. ThresholdsConfig_init float_of_text int_of_text out_of_range_environ =
               Inl (ValidationError fields) \<and> ''CONFIDENCE_APPROVAL_MIN'' \<in> set fields"
    by (elim conjE)
  from range have 11: "\<exists>cfg. ThresholdsConfig_init float_of_text int_of_text misordered_environ = Inr cfg"
    by (elim conjE)
  show ?thesis using 1 2 3 4 5 6 7 8 9 10 11 init_misordered by (intro conjI)
qed

section \<open>Default scoring weights\<close>

text \<open>
  C7.  The default scoring weights assign a weight to exactly the four required
  components, in the order of the enumeration, each once: domain_validation 0.30,
  content_analysis 0.35, sender_check 0.25 and rules_evaluation 0.10.  Every weight is
  non-negative, and the weights sum to 1.0 within 1e-6.
\<close>

theorem default_scoring_weights_ok:
  "map fst DEFAULT_SCORING_WEIGHTS = map component_value components \<and>
   distinct (map fst DEFAULT_SCORING_WEIGHTS) \<and>
   map_of DEFAULT_SCORING_WEIGHTS ''domain_validation'' = Some 0.30 \<and>
   map_of DEFAULT_SCORING_WEIGHTS ''content_analysis'' = Some 0.35 \<and>
   map_of DEFAULT_SCORING_WEIGHTS ''sender_check'' = Some 0.25 \<and>
   map_of DEFAULT_SCORING_WEIGHTS ''rules_evaluation'' = Some 0.10 \<and>
   list_all (\<lambda>w. 0 \<le> w) (map snd DEFAULT_SCORING_WEIGHTS) \<and>
   \<bar>sum_list (map snd DEFAULT_SCORING_WEIGHTS) - 1\<bar> \<le> 1 / 10 ^ 6"
  by (simp add: DEFAULT_SCORING_WEIGHTS_def components_def)

section \<open>Allowed IP ranges\<close>

lemma split_not_Nil: "split sep s \<noteq> []"
  by (induction s) (auto split: list.splits)

lemma join_Cons_Cons: "ws \<noteq> [] \<Longrightarrow> join sep (w # ws) = w @ sep # join sep ws"
  by (cases ws) auto

lemma join_split: "join sep (split sep s) = s"
proof (induction s)
  case Nil
  show ?case by simp
next
  case (Cons c cs)
  show ?case
  proof (cases "c = sep")
    case True
    with Cons show ?thesis by (simp add: join_Cons_Cons split_not_Nil)
  next
    case False
    obtain w ws where sp: "split sep cs = w # ws"
      using split_not_Nil [of sep cs] by (cases "split sep cs") auto
    with Cons False show ?thesis by (cases ws) auto
  qed
qed

lemma split_no_sep: "w \<in> set (split sep s) \<Longrightarrow> sep \<notin> set w"
  by (induction s arbitrary: w) (auto split: list.splits if_splits)

lemma split_append_sep:
  "sep \<notin> set w \<Longrightarrow> split sep (w @ sep # s) = w # split sep s"
  by (induction w) auto

lemma split_no_sep_id: "sep \<notin> set w \<Longrightarrow> split sep w = [w]"
  by (induction w) auto

lemma split_unique:
  "ws \<noteq> [] \<Longrightarrow> (\<forall>w \<in> set ws. sep \<notin> set w) \<Longrightarrow> split sep (join sep ws) = ws"
proof (induction ws)
  case Nil
  then show ?case by simp
next
  case (Cons w ws)
  show ?case
  proof (cases ws)
    case Nil
    with Cons.prems show ?thesis by (simp add: split_no_sep_id)
  next
    case (Cons v vs)
    with Cons.prems Cons.IH show ?thesis by (simp add: split_append_sep)
  qed
qed

lemma stripped_strip: "stripped e (strip e)"
proof -
  define d where "d = dropWhile isspace e"
  define x where "x = rev (dropWhile isspace (rev d))"
  define r where "r = rev (takeWhile isspace (rev d))"
  have x: "strip e = x" by (simp add: strip_def x_def d_def)
  have "rev (takeWhile isspace (rev d) @ dropWhile isspace (rev d)) = rev (rev d)"
    by (simp only: takeWhile_dropWhile_id)
  then have "x @ r = d"
    by (simp only: rev_append rev_rev_ident x_def r_def)
  then have d: "d = x @ r" by simp
  have e: "e = takeWhile isspace e @ x @ r"
  proof -
    have "e = takeWhile isspace e @ d" unfolding d_def by simp
    also have "d = x @ r" by (rule d)
    finally show ?thesis .
  qed
  have l: "list_all isspace (takeWhile isspace e)"
    by (auto simp: list_all_iff dest: set_takeWhileD)
  have r: "list_all isspace r"
    by (auto simp: list_all_iff r_def dest: set_takeWhileD)
  have ends: "\<not> isspace (hd x) \<and> \<not> isspace (last x)" if "x \<noteq> []"
  proof
    from that d have "d \<noteq> []" and "hd x = hd d" by auto
    then show "\<not> isspace (hd x)" using hd_dropWhile [of isspace e] by (simp add: d_def)
    from that have "dropWhile isspace (rev d) \<noteq> []" by (simp add: x_def)
    then have "\<not> isspace (hd (dropWhile isspace (rev d)))" by (rule hd_dropWhile)
    moreover have "last x = hd (dropWhile isspace (rev d))"
      using that by (simp add: x_def last_rev)
    ultimately show "\<not> isspace (last x)" by simp
  qed
  show ?thesis
    unfolding stripped_def x using e l r ends by blast
qed

lemma dropWhile_skip:
  "\<forall>c\<in>set l. P c \<Longrightarrow> ys \<noteq> [] \<Longrightarrow> \<not> P (hd ys) \<Longrightarrow> dropWhile P (l @ ys) = ys"
  by (induction l) (auto simp: neq_Nil_conv)

lemma stripped_unique:
  assumes "stripped e x"
  shows "x = strip e"
proof -
  from assms obtain l r where e: "e = l @ x @ r" and l: "\<forall>c\<in>set l. isspace c"
    and r: "\<forall>c\<in>set r. isspace c" and x: "x = [] \<or> (\<not> isspace (hd x) \<and> \<not> isspace (last x))"
    by (auto simp: stripped_def list_all_iff)
  show ?thesis
  proof (cases "x = []")
    case True
    have "\<forall>c\<in>set (l @ r). isspace c" using l r by auto
    moreover have "e = l @ r" using e True by simp
    ultimately have dw: "dropWhile isspace e = []" by (simp only: dropWhile_eq_Nil_conv)
    show ?thesis unfolding strip_def dw True by simp
  next
    case False
    with x have h: "\<not> isspace (hd x)" and la: "\<not> isspace (last x)" by auto
    have 1: "dropWhile isspace (l @ x @ r) = x @ r"
      using l False h by (intro dropWhile_skip) auto
    have 2: "dropWhile isspace (rev r @ rev x) = rev x"
      using r False la by (intro dropWhile_skip) (auto simp: hd_rev)
    show ?thesis unfolding strip_def e 1 rev_append 2 by simp
  qed
qed

text \<open>
  C10.  \<open>allowed_ip_list\<close> is the empty list when \<open>allowed_ip_ranges\<close> is the empty
  string.  Otherwise the string has exactly one non-empty list of comma-free entries
  that joined by commas give it back (its comma-separated entries), and the result
  is, entry by entry, the entry with the white space around it removed, the only
  list that is so.  The function is total: no input makes it raise.
\<close>

theorem allowed_ip_list_spec:
  "(allowed_ip_ranges self = [] \<longrightarrow> allowed_ip_list self = []) \<and>
   (allowed_ip_ranges self \<noteq> [] \<longrightarrow>
      (\<exists>entries. entries \<noteq> [] \<and> (\<forall>e \<in> set entries. CHR '','' \<notin> set e) \<and>
         join (CHR '','') entries = allowed_ip_ranges self \<and>
         (\<forall>other. other \<noteq> [] \<and> (\<forall>e \<in> set other. CHR '','' \<notin> set e) \<and>
            join (CHR '','') other = allowed_ip_ranges self \<longrightarrow> other = entries) \<and>
         list_all2 stripped entries (allowed_ip_list self) \<and>
         (\<forall>ys. list_all2 stripped entries ys \<longrightarrow> ys = allowed_ip_list self)))"
proof (intro conjI impI)
  show "allowed_ip_list self = []" if "allowed_ip_ranges self = []"
    using that by (simp add: allowed_ip_list_def)
next
  assume ne: "allowed_ip_ranges self \<noteq> []"
  let ?s = "allowed_ip_ranges self"
  let ?es = "split (CHR '','') ?s"
  have res: "allowed_ip_list self = map strip ?es"
    using ne by (simp add: allowed_ip_list_def)
  have a: "?es \<noteq> []" by (rule split_not_Nil)
  have b: "\<forall>e \<in> set ?es. CHR '','' \<notin> set e" using split_no_sep by blast
  have c: "join (CHR '','') ?es = ?s" by (rule join_split)
  have d: "\<forall>other. other \<noteq> [] \<and> (\<forall>e \<in> set other. CHR '','' \<notin> set e) \<and>
            join (CHR '','') other = ?s \<longrightarrow> other = ?es"
    using split_unique by metis
  have e: "list_all2 stripped ?es (allowed_ip_list self)"
    unfolding res by (simp add: list_all2_map2 list.rel_refl stripped_strip)
  have f: "\<forall>ys. list_all2 stripped ?es ys \<longrightarrow> ys = allowed_ip_list self"
  proof (intro allI impI)
    fix ys assume "list_all2 stripped ?es ys"
    then have "list_all2 (\<lambda>e y. y = strip e) ?es ys"
      by (rule list_all2_mono) (simp add: stripped_unique)
    then show "ys = allowed_ip_list self"
      unfolding res by (induction rule: list_all2_induct) auto
  qed
  from a b c d e f
  show "\<exists>entries. entries \<noteq> [] \<and> (\<forall>e \<in> set entries. CHR '','' \<notin> set e) \<and>
         join (CHR '','') entries = allowed_ip_ranges self \<and>
         (\<forall>other. other \<noteq> [] \<and> (\<forall>e \<in> set other. CHR '','' \<notin> set e) \<and>
            join (CHR '','') other = allowed_ip_ranges self \<longrightarrow> other = entries) \<and>
         list_all2 stripped entries (allowed_ip_list self) \<and>
         (\<forall>ys. list_all2 stripped entries ys \<longrightarrow> ys = allowed_ip_list self)"
    by blast
qed

lemma allowed_ip_list_sec0:
  "allowed_ip_list sec0 = [''10.0.0.0/8'', ''192.168.1.1'', [], []]"
  by (simp add: sec0_def allowed_ip_list_def strip_def isspace_def)

theorem allowed_ip_list_spec_witness:
  "allowed_ip_ranges sec_empty = [] \<and> allowed_ip_list sec_empty = [] \<and>
   allowed_ip_ranges sec0 \<noteq> [] \<and>
   (\<exists>entries. entries \<noteq> [] \<and> (\<forall>e \<in> set entries. CHR '','' \<notin> set e) \<and>
      join (CHR '','') entries = ''10.0.0.0/8, 192.168.1.1 ,,  '' \<and>
      list_all2 stripped entries [''10.0.0.0/8'', ''192.168.1.1'', [], []])"
proof -
  have a: "allowed_ip_ranges sec_empty = []" by (simp add: sec_empty_def)
  have b: "allowed_ip_ranges sec0 \<noteq> []" by (simp add: sec0_def)
  have c: "allowed_ip_ranges sec0 = ''10.0.0.0/8, 192.168.1.1 ,,  ''" by (simp add: sec0_def)
  from allowed_ip_list_spec [of sec_empty] a have 1: "allowed_ip_list sec_empty = []" by blast
  from allowed_ip_list_spec [of sec0] b
  have "\<exists>entries. entries \<noteq> [] \<and> (\<forall>e \<in> set entries. CHR '','' \<notin> set e) \<and>
      join (CHR '','') entries = allowed_ip_ranges sec0 \<and>
      list_all2 stripped entries (allowed_ip_list sec0)" by blast
  then have 2: "\<exists>entries. entries \<noteq> [] \<and> (\<forall>e \<in> set entries. CHR '','' \<notin> set e) \<and>
      join (CHR '','') entries = ''10.0.0.0/8, 192.168.1.1 ,,  '' \<and>
      list_all2 stripped entries [''10.0.0.0/8'', ''192.168.1.1'', [], []]"
    unfolding c allowed_ip_list_sec0 .
  from a 1 b 2 show ?thesis by blast
qed

section \<open>Censoring of log events\<close>

lemma starts_with_iff: "starts_with xs ys \<longleftrightarrow> (\<exists>r. xs = ys @ r)"
  by (induction xs ys rule: starts_with.induct) auto

lemma contains_iff: "contains h n \<longleftrightarrow> (\<exists>p r. h = p @ n @ r)"
proof (induction h)
  case Nil
  show ?case by auto
next
  case (Cons c cs)
  show ?case
  proof
    assume "contains (c # cs) n"
    then consider "starts_with (c # cs) n" | "contains cs n" by auto
    then show "\<exists>p r. c # cs = p @ n @ r"
    proof cases
      case 1
      then obtain r where "c # cs = n @ r" by (auto simp: starts_with_iff)
      then have "c # cs = [] @ n @ r" by simp
      then show ?thesis by blast
    next
      case 2
      with Cons obtain p r where "cs = p @ n @ r" by blast
      then have "c # cs = (c # p) @ n @ r" by simp
      then show ?thesis by blast
    qed
  next
    assume "\<exists>p r. c # cs = p @ n @ r"
    then obtain p r where e: "c # cs = p @ n @ r" by blast
    show "contains (c # cs) n"
    proof (cases p)
      case Nil
      with e have "starts_with (c # cs) n" by (auto simp: starts_with_iff)
      then show ?thesis by simp
    next
      case (Cons a p')
      with e have "cs = p' @ n @ r" by simp
      with Cons.IH have "contains cs n" by blast
      then show ?thesis by simp
    qed
  qed
qed

lemma map_of_censor_step:
  "map_of (censor_step k d) = (if is_sensitive k then (map_of d)(k \<mapsto> Str ''***REDACTED***'') else map_of d)"
  by (simp add: censor_step_def is_sensitive_def update_conv')

lemma map_of_fold_censor:
  "map_of (fold censor_step ks d) k =
     (if k \<in> set ks \<and> is_sensitive k then Some (Str ''***REDACTED***'') else map_of d k)"
  by (induction ks arbitrary: d) (auto simp: map_of_censor_step)

lemma keys_censor_step:
  "k \<in> fst ` set d \<Longrightarrow> map fst (censor_step k d) = map fst d"
  by (simp add: censor_step_def update_keys)

lemma keys_fold_censor:
  "set ks \<subseteq> fst ` set d \<Longrightarrow> map fst (fold censor_step ks d) = map fst d"
proof (induction ks arbitrary: d)
  case Nil
  show ?case by simp
next
  case (Cons k ks)
  from Cons.prems have k: "k \<in> fst ` set d" by simp
  then have same: "map fst (censor_step k d) = map fst d" by (rule keys_censor_step)
  then have "set (map fst (censor_step k d)) = set (map fst d)" by (rule arg_cong)
  then have "fst ` set (censor_step k d) = fst ` set d" by simp
  with Cons.prems have "set ks \<subseteq> fst ` set (censor_step k d)" by simp
  then have "map fst (fold censor_step ks (censor_step k d)) = map fst (censor_step k d)"
    by (rule Cons.IH)
  with same show ?case by simp
qed

lemma is_sensitive_iff:
  "is_sensitive key \<longleftrightarrow>
     (\<exists>s \<in> {''password'', ''api_key'', ''token'', ''secret'', ''auth''}. \<exists>p r. lower key = p @ s @ r)"
  by (simp add: is_sensitive_def sensitive_keys_def contains_iff)

text \<open>
  C9.  The processor keeps the keys of the event and their order.  The value of a
  key whose lowercased name contains one of "password", "api_key", "token", "secret"
  and "auth" becomes the string "***REDACTED***"; the value of every other key is
  unchanged, and no key is added.
\<close>

theorem censor_sensitive_data_spec:
  "map fst (censor_sensitive_data logger method_name event_dict) = map fst event_dict \<and>
   map_of (censor_sensitive_data logger method_name event_dict) key =
     (case map_of event_dict key of
        None \<Rightarrow> None
      | Some v \<Rightarrow>
          if \<exists>s \<in> {''password'', ''api_key'', ''token'', ''secret'', ''auth''}.
               \<exists>p r. lower key = p @ s @ r
          then Some (Str ''***REDACTED***'') else Some v)"
proof
  show "map fst (censor_sensitive_data logger method_name event_dict) = map fst event_dict"
    by (simp add: censor_sensitive_data_def keys_fold_censor)
  have "key \<in> set (map fst event_dict) \<longleftrightarrow> map_of event_dict key \<noteq> None"
    by (simp add: map_of_eq_None_iff)
  then show "map_of (censor_sensitive_data logger method_name event_dict) key =
     (case map_of event_dict key of
        None \<Rightarrow> None
      | Some v \<Rightarrow>
          if \<exists>s \<in> {''password'', ''api_key'', ''token'', ''secret'', ''auth''}.
               \<exists>p r. lower key = p @ s @ r
          then Some (Str ''***REDACTED***'') else Some v)"
    unfolding censor_sensitive_data_def map_of_fold_censor is_sensitive_iff
    by (auto split: option.splits)
qed

lemma censor_event0: "censor_sensitive_data () ''info'' event0 =
   [(''event'', Str ''login''), (''API_KEY'', Str ''***REDACTED***''), (''user'', Str ''bob''),
             (''Authorization'', Str ''***REDACTED***''), (''count'', Other 3)]"
  by code_simp

lemma sens_api: "is_sensitive ''API_KEY''"
  by code_simp

lemma sens_user: "\<not> is_sensitive ''user''"
  by code_simp

theorem censor_sensitive_data_spec_witness:
  "map_of (censor_sensitive_data () ''info'' event0) ''API_KEY'' = Some (Str ''***REDACTED***'') \<and>
   map_of (censor_sensitive_data () ''info'' event0) ''user'' = Some (Str ''bob'') \<and>
   map_of (censor_sensitive_data () ''info'' event0) ''missing'' = None \<and>
   map fst (censor_sensitive_data () ''info'' event0) =
     [''event'', ''API_KEY'', ''user'', ''Authorization'', ''count'']"
  using censor_sensitive_data_spec [of "()" "''info''" event0 "''API_KEY''"]
        censor_sensitive_data_spec [of "()" "''info''" event0 "''user''"]
        censor_sensitive_data_spec [of "()" "''info''" event0 "''missing''"]
        sens_api sens_user
  unfolding is_sensitive_iff
  by (simp add: event0_def)

section \<open>Whitelist and blacklist tables\<close>

lemma insert_row_ok:
  "table_ok t \<Longrightarrow> insert_row uq r t = Inr t' \<Longrightarrow> table_ok t'"
  by (auto simp: insert_row_def table_ok_def split: if_splits)

lemma delete_row_ok: "table_ok t \<Longrightarrow> table_ok (delete_row i t)"
  by (simp add: delete_row_def table_ok_def distinct_map_filter)

lemma update_absent:
  "i \<notin> set (map row_id t) \<Longrightarrow>
   map (\<lambda>r. if row_id r = i then r\<lparr>entry_type := ty, entry_value := v\<rparr> else r) t = t"
  by (induction t) auto

lemma delete_absent: "i \<notin> set (map row_id t) \<Longrightarrow> delete_row i t = t"
  by (induction t) (auto simp: delete_row_def)

lemma update_keys_subset:
  "set (map type_value (map (\<lambda>r. if row_id r = i then r\<lparr>entry_type := ty, entry_value := v\<rparr> else r) t))
     \<subseteq> insert (ty, v) (set (map type_value (delete_row i t)))"
  by (induction t) (auto simp: delete_row_def type_value_def)

lemma update_row_ids:
  "map row_id (map (\<lambda>r. if row_id r = i then r\<lparr>entry_type := ty, entry_value := v\<rparr> else r) t) = map row_id t"
  by (induction t) auto

lemma update_distinct:
  "distinct (map row_id t) \<Longrightarrow> distinct (map type_value t) \<Longrightarrow>
   (ty, v) \<notin> set (map type_value (delete_row i t)) \<Longrightarrow>
   distinct (map type_value (map (\<lambda>r. if row_id r = i then r\<lparr>entry_type := ty, entry_value := v\<rparr> else r) t))"
proof (induction t)
  case Nil
  show ?case by simp
next
  case (Cons r rs)
  let ?f = "\<lambda>r. if row_id r = i then r\<lparr>entry_type := ty, entry_value := v\<rparr> else r"
  show ?case
  proof (cases "row_id r = i")
    case True
    with Cons.prems have absent: "i \<notin> set (map row_id rs)" by auto
    then have same: "map ?f rs = rs" by (rule update_absent)
    have del: "delete_row i (r # rs) = rs"
      using True delete_absent [OF absent] by (simp add: delete_row_def)
    from Cons.prems(3) del have "(ty, v) \<notin> set (map type_value rs)" by simp
    with Cons.prems(2) True same show ?thesis by (simp add: type_value_def)
  next
    case False
    then have del: "delete_row i (r # rs) = r # delete_row i rs" by (simp add: delete_row_def)
    with Cons.prems(3) have ne: "type_value r \<noteq> (ty, v)"
      and rest: "(ty, v) \<notin> set (map type_value (delete_row i rs))" by auto
    from Cons.prems have ih: "distinct (map type_value (map ?f rs))"
      using rest by (intro Cons.IH) auto
    have "set (map type_value (delete_row i rs)) \<subseteq> set (map type_value rs)"
      by (auto simp: delete_row_def)
    with update_keys_subset [where t = rs and i = i and ty = ty and v = v]
    have "set (map type_value (map ?f rs)) \<subseteq> insert (ty, v) (set (map type_value rs))" by blast
    moreover from Cons.prems(2) have "type_value r \<notin> set (map type_value rs)" by simp
    ultimately have "type_value r \<notin> set (map type_value (map ?f rs))" using ne by blast
    with ih False show ?thesis by simp
  qed
qed

lemma update_row_ok:
  assumes "table_ok t" and "update_row uq i ty v t = Inr t'"
  shows "table_ok t'"
proof (cases "i \<in> set (map row_id t)")
  case True
  with assms(2) have free: "(ty, v) \<notin> set (map type_value (delete_row i t))"
    and t': "t' = map (\<lambda>r. if row_id r = i then r\<lparr>entry_type := ty, entry_value := v\<rparr> else r) t"
    by (auto simp: update_row_def split: if_splits)
  from assms(1) free show ?thesis
    unfolding t' table_ok_def update_row_ids by (simp only: update_distinct simp_thms)
next
  case False
  with assms(2) have "t' = t"
    using update_absent [OF False] by (auto simp: update_row_def split: if_splits)
  with assms(1) show ?thesis by simp
qed

lemma execute_ok:
  "store_ok s \<Longrightarrow> execute s st = Inr s' \<Longrightarrow> store_ok s'"
proof (cases st)
  case (Insert tb r)
  assume "store_ok s" "execute s st = Inr s'"
  with Insert show ?thesis
    by (cases tb) (auto simp: store_ok_def split: sum.splits dest: insert_row_ok)
next
  case (Delete tb i)
  assume "store_ok s" "execute s st = Inr s'"
  with Delete show ?thesis
    by (cases tb) (auto simp: store_ok_def delete_row_ok)
next
  case (Update tb i ty v)
  assume "store_ok s" "execute s st = Inr s'"
  with Update show ?thesis
    by (cases tb) (auto simp: store_ok_def split: sum.splits dest: update_row_ok)
qed

lemma run_ok: "store_ok s \<Longrightarrow> store_ok (run s sts)"
  by (induction sts arbitrary: s) (auto split: sum.splits dest: execute_ok)

lemma empty_store_ok: "store_ok empty_store"
  by (simp add: store_ok_def table_ok_def empty_store_def)

text \<open>
  C8.  In every state the list store reaches from the empty store by a history of
  insert, update and delete statements, the pair (entry_type, value) is unique within
  the whitelist and unique within the blacklist.  The two lists are independent: the
  pair of any row can be in both at once, as after inserting the row into each.
\<close>

theorem list_store_unique_per_list:
  "distinct (map type_value (whitelists (run empty_store history))) \<and>
   distinct (map type_value (blacklists (run empty_store history))) \<and>
   type_value r \<in> set (map type_value (whitelists (run empty_store [Insert Whitelist r, Insert Blacklist r]))) \<and>
   type_value r \<in> set (map type_value (blacklists (run empty_store [Insert Whitelist r, Insert Blacklist r])))"
proof -
  have "store_ok (run empty_store history)"
    using empty_store_ok by (rule run_ok)
  then have a: "distinct (map type_value (whitelists (run empty_store history))) \<and>
   distinct (map type_value (blacklists (run empty_store history)))"
    by (simp add: store_ok_def table_ok_def)
  have b: "run empty_store [Insert Whitelist r, Insert Blacklist r] = \<lparr> whitelists = [r], blacklists = [r] \<rparr>"
    by (simp add: empty_store_def insert_row_def)
  show ?thesis using a unfolding b by simp
qed

lemma run_history0: "run empty_store history0 = \<lparr> whitelists = [row1, row3], blacklists = [row1] \<rparr>"
  by (simp add: history0_def empty_store_def insert_row_def update_row_def delete_row_def row1_def row2_def row3_def type_value_def)

theorem list_store_unique_per_list_witness:
  "run empty_store history0 = \<lparr> whitelists = [row1, row3], blacklists = [row1] \<rparr> \<and>
   distinct (map type_value [row1, row3]) \<and> distinct (map type_value [row1]) \<and>
   type_value row1 \<in> set (map type_value (whitelists (run empty_store [Insert Whitelist row1, Insert Blacklist row1]))) \<and>
   type_value row1 \<in> set (map type_value (blacklists (run empty_store [Insert Whitelist row1, Insert Blacklist row1])))"
  using list_store_unique_per_list [of history0 row1]
  by (simp add: run_history0)

section \<open>Decision router and list resolver\<close>

text \<open>
  C1.  For every input to the decision router with list_verdict = deny the decision
  is escalate and its reason is "blacklisted sender", whatever the overall score, the
  risk level, the policy outcome and the thresholds are.  A sender that the blacklist
  matches on its address, its domain or its IP resolves to deny whatever the
  whitelist holds, so a sender whitelisted on another attribute is escalated with the
  same reason: deny wins over allow.
\<close>

theorem deny_escalates:
  "decision_type (route score risk Deny policy_outcome thresholds) = ESCALATE \<and>
   decision_reason (route score risk Deny policy_outcome thresholds) = ''blacklisted sender'' \<and>
   ((ENTRY_EMAIL, sender_email) \<in> blacklist \<or> (ENTRY_DOMAIN, sender_domain) \<in> blacklist \<or>
    (ENTRY_IP, sender_ip) \<in> blacklist \<longrightarrow>
      resolve whitelist blacklist sender_email sender_domain sender_ip = Deny \<and>
      decision_type (route score risk (resolve whitelist blacklist sender_email sender_domain sender_ip)
                       policy_outcome thresholds) = ESCALATE \<and>
      decision_reason (route score risk (resolve whitelist blacklist sender_email sender_domain sender_ip)
                       policy_outcome thresholds) = ''blacklisted sender'')"
  by (simp add: route_def resolve_def)

theorem deny_escalates_witness:
  "(ENTRY_EMAIL, ''eve@example.com'') \<in> {(ENTRY_EMAIL, ''eve@example.com'')} \<and>
   resolve {(ENTRY_DOMAIN, ''example.com''), (ENTRY_EMAIL, ''eve@example.com'')}
           {(ENTRY_EMAIL, ''eve@example.com'')} ''eve@example.com'' ''example.com'' ''10.0.0.1'' = Deny \<and>
   decision_type (route 0.99 LOW Deny None default_thresholds) = ESCALATE \<and>
   decision_reason (route 0.99 LOW Deny None default_thresholds) = ''blacklisted sender'' \<and>
   decision_type (route 0.99 LOW Deny (Some release_outcome) default_thresholds) = ESCALATE \<and>
   decision_type (route 0.99 LOW Allow None default_thresholds) = AUTO_RELEASE"
  using deny_escalates [where score = "0.99" and risk = LOW and policy_outcome = None
          and thresholds = default_thresholds and sender_email = "''eve@example.com''"
          and sender_domain = "''example.com''" and sender_ip = "''10.0.0.1''"
          and blacklist = "{(ENTRY_EMAIL, ''eve@example.com'')}"
          and whitelist = "{(ENTRY_DOMAIN, ''example.com''), (ENTRY_EMAIL, ''eve@example.com'')}"]
        deny_escalates [where score = "0.99" and risk = LOW and policy_outcome = "Some release_outcome"
          and thresholds = default_thresholds and blacklist = "{}"]
  by (simp add: route_def)

section \<open>Score aggregator\<close>

lemma components_all: "c \<in> set components"
  by (cases c) (simp_all add: components_def)

lemma weighted_sum_Inr:
  assumes "\<forall>c \<in> set cs. \<exists>d. input c = Some (s c, d)" and "\<forall>c \<in> set cs. 0 \<le> s c \<and> s c \<le> 1"
  shows "weighted_sum cs input weights = Inr (sum_list (map (\<lambda>c. weights c * s c) cs))"
  using assms by (induction cs) auto

lemma weighted_sum_Inl_iff:
  "(\<exists>e. weighted_sum cs input weights = Inl e) \<longleftrightarrow>
     (\<exists>c \<in> set cs. input c = None \<or> (\<exists>s d. input c = Some (s, d) \<and> \<not> (0 \<le> s \<and> s \<le> 1)))"
  by (induction cs) (auto split: option.splits sum.splits)

lemma weighted_sum_error:
  "weighted_sum cs input weights = Inl e \<Longrightarrow> \<exists>m. e = ConfidenceScoringError m"
  by (induction cs) (auto split: option.splits sum.splits if_splits)

lemma weights_valid_iff:
  "weights_valid weights \<longleftrightarrow>
     (\<forall>c. 0 \<le> weights c) \<and>
     \<bar>weights DOMAIN + weights CONTENT + weights SENDER + weights RULES - 1\<bar> \<le> 1 / 10 ^ 6"
proof -
  have "(\<forall>c. 0 \<le> weights c) \<longleftrightarrow> (\<forall>c \<in> set components. 0 \<le> weights c)"
    using components_all by auto
  then show ?thesis
    by (simp add: weights_valid_def list_all_iff) (simp add: components_def add.assoc)
qed

lemma aggregate_valid:
  assumes "\<forall>c. \<exists>d. input c = Some (s c, d)" and "\<forall>c. 0 \<le> s c \<and> s c \<le> 1"
    and "weights_valid weights"
  shows "aggregate input weights = Inr (weighted_total weights s)"
proof -
  have "weighted_sum components input weights = Inr (sum_list (map (\<lambda>c. weights c * s c) components))"
    using assms(1,2) by (intro weighted_sum_Inr) auto
  then show ?thesis
    using assms(3) by (simp add: aggregate_def weighted_total_def components_def)
qed

lemma weighted_total_bounds:
  assumes "\<forall>c. 0 \<le> s c \<and> s c \<le> 1" and "\<forall>c. 0 \<le> weights c"
    and "weights DOMAIN + weights CONTENT + weights SENDER + weights RULES = 1"
  shows "0 \<le> weighted_total weights s \<and> weighted_total weights s \<le> 1"
proof -
  have nonneg: "0 \<le> weights c * s c" for c
    using assms(1,2) by simp
  have le: "weights c * s c \<le> weights c" for c
    using assms(1,2) by (simp add: mult_left_le)
  have "weighted_total weights s \<le> weights DOMAIN + weights CONTENT + weights SENDER + weights RULES"
    unfolding weighted_total_def
    using le [of DOMAIN] le [of CONTENT] le [of SENDER] le [of RULES] by linarith
  moreover have "0 \<le> weighted_total weights s"
    unfolding weighted_total_def
    using nonneg [of DOMAIN] nonneg [of CONTENT] nonneg [of SENDER] nonneg [of RULES] by linarith
  ultimately show ?thesis using assms(3) by simp
qed

lemma weighted_total_upd:
  "weighted_total weights (s(c := z)) = weights c * z + (weighted_total weights s - weights c * s c)"
  by (cases c) (simp_all add: weighted_total_def)

lemma with_score_input:
  assumes "\<forall>k. \<exists>d. input k = Some (s k, d)"
  shows "\<forall>k. \<exists>d. with_score input c z k = Some ((s(c := z)) k, d)"
proof
  fix k
  from assms obtain d where "input k = Some (s k, d)" by blast
  then show "\<exists>d. with_score input c z k = Some ((s(c := z)) k, d)"
    by (cases "k = c") (simp_all add: with_score_def)
qed

text \<open>
  C2.  For an input whose four component scores lie in [0,1] and weights that are
  non-negative and sum to 1, \<open>aggregate\<close> returns exactly the weighted sum of the four
  scores, and this value lies in [0,1].  In the score of any one component \<open>c\<close>, the
  others fixed, the result is \<open>weights c * z + k\<close> for a constant \<open>k\<close>, and raising
  the score from \<open>x\<close> to \<open>y\<close> does not lower the result.
\<close>

theorem aggregate_weighted_sum:
  assumes "\<forall>c. \<exists>d. input c = Some (s c, d)" and "\<forall>c. 0 \<le> s c \<and> s c \<le> 1"
    and "\<forall>c. 0 \<le> weights c"
    and "weights DOMAIN + weights CONTENT + weights SENDER + weights RULES = 1"
    and "0 \<le> x" and "x \<le> y" and "y \<le> 1"
  shows "(\<exists>v. aggregate input weights = Inr v \<and>
              v = weights DOMAIN * s DOMAIN + weights CONTENT * s CONTENT +
                  weights SENDER * s SENDER + weights RULES * s RULES \<and>
              0 \<le> v \<and> v \<le> 1) \<and>
         (\<exists>k. \<forall>z. 0 \<le> z \<and> z \<le> 1 \<longrightarrow>
                aggregate (with_score input c z) weights = Inr (weights c * z + k)) \<and>
         (\<exists>a b. aggregate (with_score input c x) weights = Inr a \<and>
                aggregate (with_score input c y) weights = Inr b \<and> a \<le> b)"
proof -
  have valid: "weights_valid weights"
    using assms(3,4) by (simp add: weights_valid_iff)
  have base: "aggregate input weights = Inr (weighted_total weights s)"
    using assms(1,2) valid by (rule aggregate_valid)
  have upd: "aggregate (with_score input c z) weights =
               Inr (weights c * z + (weighted_total weights s - weights c * s c))"
    if "0 \<le> z" and "z \<le> 1" for z
  proof -
    have "\<forall>k. 0 \<le> (s(c := z)) k \<and> (s(c := z)) k \<le> 1"
      using assms(2) that by simp
    with with_score_input [OF assms(1)]
    have "aggregate (with_score input c z) weights = Inr (weighted_total weights (s(c := z)))"
      using valid by (rule aggregate_valid)
    then show ?thesis by (simp only: weighted_total_upd)
  qed
  have lin: "\<exists>k. \<forall>z. 0 \<le> z \<and> z \<le> 1 \<longrightarrow>
                aggregate (with_score input c z) weights = Inr (weights c * z + k)"
    using upd by blast
  have "weights c * x \<le> weights c * y"
    using assms(3,6) by (simp add: mult_left_mono)
  moreover have "0 \<le> y" and "x \<le> 1" using assms(5,6,7) by auto
  ultimately have mono: "\<exists>a b. aggregate (with_score input c x) weights = Inr a \<and>
                aggregate (with_score input c y) weights = Inr b \<and> a \<le> b"
    using upd [of x] upd [of y] assms(5,7) by simp
  from base weighted_total_bounds [OF assms(2,3,4)] lin mono
  show ?thesis by (simp add: weighted_total_def)
qed

text \<open>
  C5.  \<open>aggregate\<close> fails with a scoring error exactly when one of the four components
  is absent from the input, or a component score is outside [0,1], or the weights break
  their invariant (they are non-negative and sum to 1 within 1e-6); it returns a
  score exactly when it does not fail.  So an absent component always gives the error
  and never a score.
\<close>

theorem aggregate_fails_iff:
  "((\<exists>m. aggregate input weights = Inl (ConfidenceScoringError m)) \<longleftrightarrow>
      (\<exists>c. input c = None) \<or>
      (\<exists>c score details. input c = Some (score, details) \<and> \<not> (0 \<le> score \<and> score \<le> 1)) \<or>
      \<not> ((\<forall>c. 0 \<le> weights c) \<and>
         \<bar>weights DOMAIN + weights CONTENT + weights SENDER + weights RULES - 1\<bar> \<le> 1 / 10 ^ 6)) \<and>
   ((\<exists>v. aggregate input weights = Inr v) \<longleftrightarrow>
      \<not> (\<exists>m. aggregate input weights = Inl (ConfidenceScoringError m)))"
proof -
  have err: "(\<exists>e. weighted_sum components input weights = Inl e) \<longleftrightarrow>
      (\<exists>c. input c = None) \<or>
      (\<exists>c score details. input c = Some (score, details) \<and> \<not> (0 \<le> score \<and> score \<le> 1))"
    unfolding weighted_sum_Inl_iff using components_all by blast
  have kind: "(\<exists>m. weighted_sum components input weights = Inl (ConfidenceScoringError m)) \<longleftrightarrow>
      (\<exists>e. weighted_sum components input weights = Inl e)"
    using weighted_sum_error by blast
  have a: "(\<exists>m. aggregate input weights = Inl (ConfidenceScoringError m)) \<longleftrightarrow>
      (\<exists>c. input c = None) \<or>
      (\<exists>c score details. input c = Some (score, details) \<and> \<not> (0 \<le> score \<and> score \<le> 1)) \<or>
      \<not> ((\<forall>c. 0 \<le> weights c) \<and>
         \<bar>weights DOMAIN + weights CONTENT + weights SENDER + weights RULES - 1\<bar> \<le> 1 / 10 ^ 6)"
    unfolding weights_valid_iff [symmetric]
    using err kind by (cases "weights_valid weights") (simp_all add: aggregate_def)
  have b: "(\<exists>v. aggregate input weights = Inr v) \<longleftrightarrow>
      \<not> (\<exists>m. aggregate input weights = Inl (ConfidenceScoringError m))"
  proof (cases "aggregate input weights")
    case (Inl e)
    then have "\<exists>m. e = ConfidenceScoringError m"
      using weighted_sum_error by (auto simp: aggregate_def split: if_splits)
    with Inl show ?thesis by auto
  next
    case (Inr v)
    then show ?thesis by simp
  qed
  from a b show ?thesis by blast
qed

lemma example_scores_unit: "\<forall>c. 0 \<le> example_scores c \<and> example_scores c \<le> 1"
proof
  fix c show "0 \<le> example_scores c \<and> example_scores c \<le> 1"
    by (cases c) (simp_all add: example_scores_def)
qed

lemma example_weights_nonneg: "\<forall>c. 0 \<le> example_weights c"
proof
  fix c show "0 \<le> example_weights c"
    by (cases c) (simp_all add: example_weights_def)
qed

lemma example_weights_simps:
  "example_weights DOMAIN = 0.30" "example_weights CONTENT = 0.35"
  "example_weights SENDER = 0.25" "example_weights RULES = 0.10"
  by (simp_all add: example_weights_def)

lemma example_scores_simps:
  "example_scores DOMAIN = 0.9" "example_scores CONTENT = 0.8"
  "example_scores SENDER = 0.7" "example_scores RULES = 0.6"
  by (simp_all add: example_scores_def)

theorem aggregate_weighted_sum_witness:
  "aggregate example_input example_weights = Inr 0.785 \<and>
   (\<exists>a b. aggregate (with_score example_input SENDER 0.1) example_weights = Inr a \<and>
          aggregate (with_score example_input SENDER 0.5) example_weights = Inr b \<and> a \<le> b)"
proof -
  have 1: "\<forall>c. \<exists>d. example_input c = Some (example_scores c, d)"
    by (simp add: example_input_def)
  have 4: "example_weights DOMAIN + example_weights CONTENT + example_weights SENDER +
           example_weights RULES = 1"
    by (simp add: example_weights_simps)
  have 5: "(0::real) \<le> 0.1" and 6: "(0.1::real) \<le> 0.5" and 7: "(0.5::real) \<le> 1" by simp_all
  from aggregate_weighted_sum [OF 1 example_scores_unit example_weights_nonneg 4 5 6 7, where c = SENDER]
  show ?thesis by (auto simp: example_weights_simps example_scores_simps)
qed

theorem aggregate_fails_iff_witness:
  "partial_input RULES = None \<and>
   (\<exists>m. aggregate partial_input example_weights = Inl (ConfidenceScoringError m)) \<and>
   (\<exists>v. aggregate example_input example_weights = Inr v)"
proof -
  have a: "partial_input RULES = None" by (simp add: partial_input_def)
  then have "\<exists>c. partial_input c = None" by blast
  with aggregate_fails_iff [of partial_input example_weights]
  have b: "\<exists>m. aggregate partial_input example_weights = Inl (ConfidenceScoringError m)" by blast
  have "\<forall>c. example_input c \<noteq> None" by (simp add: example_input_def)
  moreover have "\<forall>c score details. example_input c = Some (score, details) \<longrightarrow> 0 \<le> score \<and> score \<le> 1"
    using example_scores_unit by (simp add: example_input_def)
  moreover have "\<bar>example_weights DOMAIN + example_weights CONTENT + example_weights SENDER +
           example_weights RULES - 1\<bar> \<le> 1 / 10 ^ 6"
    by (simp add: example_weights_simps)
  ultimately have c: "\<exists>v. aggregate example_input example_weights = Inr v"
    using aggregate_fails_iff [of example_input example_weights] example_weights_nonneg by blast
  from a b c show ?thesis by blast
qed

section \<open>Policy evaluator\<close>











end
